theory Spec2Isabelle
  imports Complex_Main "HOL-Library.Word"
begin

section \<open>Machine types, faults and arrays\<close>

text \<open>
  The class \<open>fusionData<_histBins, _onDevice>\<close> of \<open>src/inc/fusion.h\<close> is embedded
  function by function. The two template parameters are ordinary arguments
  (\<open>bins\<close> for \<open>_histBins\<close>, \<open>onDevice\<close> for \<open>_onDevice\<close>). Integers keep their
  width where the code can wrap: \<open>unsigned char\<close> is an 8-bit word, \<open>uint\<close> a 32-bit
  word, \<open>size_t\<close> a 64-bit word; a C \<open>int\<close> argument is an \<open>int\<close> (the code never
  does arithmetic on one that could overflow). The values of type \<open>float\<close> and
  \<open>double\<close> are real numbers: rounding and NaN are not part of the model, and
  overflow to infinity is modelled where the code squares its input
  (\<open>projectUnitBall\<close>).
  A division whose divisor is zero has no real value and is the fault
  \<open>DivByZero\<close>; an array access outside the array is the fault \<open>OutOfRange\<close>.
\<close>

type_synonym uchar = "8 word"
type_synonym uint32 = "32 word"
type_synonym size_t = "64 word"
type_synonym cudaError_t = int

datatype fault = DivByZero | OutOfRange

definition fdiv :: "real \<Rightarrow> real \<Rightarrow> fault + real" where
  "fdiv a b = (if b = 0 then Inl DivByZero else Inr (a / b))"

definition arr_read :: "'a list \<Rightarrow> int \<Rightarrow> fault + 'a" where
  "arr_read xs i =
     (if 0 \<le> i \<and> i < int (length xs) then Inr (xs ! nat i) else Inl OutOfRange)"

definition arr_write :: "'a list \<Rightarrow> int \<Rightarrow> 'a \<Rightarrow> fault + 'a list" where
  "arr_write xs i a =
     (if 0 \<le> i \<and> i < int (length xs) then Inr (xs[nat i := a]) else Inl OutOfRange)"

text \<open>\<open>roundf\<close> rounds to the nearest integer, halfway cases away from zero.\<close>

definition roundf :: "real \<Rightarrow> int" where
  "roundf a = (if 0 \<le> a then \<lfloor>a + 1 / 2\<rfloor> else - \<lfloor>- a + 1 / 2\<rfloor>)"

section \<open>Voxels and histograms\<close>

datatype float3 = make_float3 (fx: real) (fy: real) (fz: real)

definition div_float3 :: "float3 \<Rightarrow> real \<Rightarrow> float3" where
  "div_float3 a s = make_float3 (fx a / s) (fy a / s) (fz a / s)"


text \<open>
  Modelled from the spec: the struct \<open>histogram<_nBins>\<close> of \<open>structs.h\<close>, a vector of
  \<open>_nBins\<close> non-negative counts with the accessors \<open>first()\<close>, \<open>last()\<close> and the
  indexed operator, whose bin index is 1-based (\<open>Wi\<close> below addresses the bins
  \<open>1 \<dots> _histBins\<close> through it). Each accessor yields a position of the count
  array; reading and incrementing go through the checked array access. The counts
  are natural numbers: the width of the count type is not in \<open>fusion.h\<close>, and no
  wrap-around of a count, or of the \<open>int\<close> accumulator of \<open>Wi\<close>, is modelled.
\<close>

type_synonym histogram = "nat list"

definition hist_first :: "histogram \<Rightarrow> int" where
  "hist_first hs = 0"

definition hist_last :: "histogram \<Rightarrow> int" where
  "hist_last hs = int (length hs) - 1"

definition hist_at :: "histogram \<Rightarrow> int \<Rightarrow> int" where
  "hist_at hs i = i - 1"

definition hist_incr :: "histogram \<Rightarrow> int \<Rightarrow> fault + histogram" where
  "hist_incr hs pos =
     (case arr_read hs pos of
        Inl e \<Rightarrow> Inl e
      | Inr c \<Rightarrow> arr_write hs pos (c + 1))"

text \<open>
  The struct \<open>fusionvoxel<_histBins>\<close> (also of \<open>structs.h\<close>) with the members that
  \<open>fusion.h\<close> reads: \<open>u\<close>, \<open>v\<close>, \<open>p\<close> and \<open>h\<close>.
\<close>

record fusionvoxel =
  vox_u :: real
  vox_v :: real
  vox_p :: float3
  vox_h :: histogram

section \<open>The store\<close>

text \<open>
  The members of \<open>fusionData\<close>. \<open>voxel\<close> is the array that \<open>_voxel\<close> points to, as
  a function of the element index; \<open>voxel_base\<close> is the address held in \<open>_voxel\<close>,
  which only the transfer functions hand on.
\<close>

record fusionData =
  voxel :: "size_t \<Rightarrow> fusionvoxel"
  voxel_base :: size_t
  bincenters :: "real list"
  binstep :: real
  dim_w :: size_t
  dim_h :: size_t
  dim_d :: size_t
  pitch :: size_t
  spitch :: size_t
  vol :: "float3 \<times> float3"

text \<open>The index expression \<open>nx + ny * _w + nz * _w * _h\<close>, computed in \<open>size_t\<close>.\<close>

definition idx :: "fusionData \<Rightarrow> int \<Rightarrow> int \<Rightarrow> int \<Rightarrow> size_t" where
  "idx g nx ny nz =
     word_of_int nx + word_of_int ny * dim_w g + word_of_int nz * dim_w g * dim_h g"

definition u_at :: "fusionData \<Rightarrow> int \<Rightarrow> int \<Rightarrow> int \<Rightarrow> real" where
  "u_at g nx ny nz = vox_u (voxel g (idx g nx ny nz))"

definition v_at :: "fusionData \<Rightarrow> int \<Rightarrow> int \<Rightarrow> int \<Rightarrow> real" where
  "v_at g nx ny nz = vox_v (voxel g (idx g nx ny nz))"

definition p_at :: "fusionData \<Rightarrow> int \<Rightarrow> int \<Rightarrow> int \<Rightarrow> float3" where
  "p_at g nx ny nz = vox_p (voxel g (idx g nx ny nz))"

definition h_at :: "fusionData \<Rightarrow> int \<Rightarrow> int \<Rightarrow> int \<Rightarrow> histogram" where
  "h_at g nx ny nz = vox_h (voxel g (idx g nx ny nz))"

subsection \<open>Bin parameters\<close>

definition binCenter :: "uchar \<Rightarrow> fusionData \<Rightarrow> uchar \<Rightarrow> fault + real" where
  "binCenter bins g binindex =
     (if binindex < bins then arr_read (bincenters g) (uint binindex) else Inr 0)"

definition binStep :: "fusionData \<Rightarrow> real" where
  "binStep g = binstep g"

text \<open>
  The loop of \<open>binParams\<close>: \<open>for (unsigned char i = 1; i < _histBins - 1; i++)\<close>.
  The comparison and \<open>i - 1\<close>, \<open>_histBins - 3\<close> are done in \<open>int\<close>.
\<close>

function binParams_loop :: "uchar \<Rightarrow> uchar \<Rightarrow> real list \<Rightarrow> fault + real list" where
  "binParams_loop bins i c =
     (if uint i < uint bins - 1 then
        (case fdiv (2 * real_of_int (uint i - 1)) (real_of_int (uint bins - 3)) of
           Inl e \<Rightarrow> Inl e
         | Inr q \<Rightarrow>
            (case arr_write c (uint i) (q - 1) of
               Inl e \<Rightarrow> Inl e
             | Inr c' \<Rightarrow> binParams_loop bins (i + 1) c'))
      else Inr c)"
  by pat_completeness auto
termination
proof (relation "measure (\<lambda>(bins, i, c). nat (uint bins - 1 - uint i))")
  show "wf (measure (\<lambda>(bins :: uchar, i :: uchar, c :: real list). nat (uint bins - 1 - uint i)))"
    by simp
next
  fix bins i :: uchar and c :: "real list" and x2 :: real and x2a :: "real list"
  assume lt: "uint i < uint bins - 1"
  have "uint (i + 1) = uint i + 1"
    using lt by uint_arith
  with lt show "((bins, i + 1, x2a), (bins, i, c))
      \<in> measure (\<lambda>(bins, i, c). nat (uint bins - 1 - uint i))"
    by simp
qed

definition binParams :: "uchar \<Rightarrow> fusionData \<Rightarrow> fault + fusionData" where
  "binParams bins g =
     (case arr_write (bincenters g) 0 (- 1) of
        Inl e \<Rightarrow> Inl e
      | Inr c0 \<Rightarrow>
         (case arr_write c0 (uint bins - 1) 1 of
            Inl e \<Rightarrow> Inl e
          | Inr c1 \<Rightarrow>
             (case binParams_loop bins 1 c1 of
                Inl e \<Rightarrow> Inl e
              | Inr c2 \<Rightarrow>
                 (case fdiv 2 (real_of_int (uint bins - 3)) of
                    Inl e \<Rightarrow> Inl e
                  | Inr s \<Rightarrow> Inr (g\<lparr>bincenters := c2, binstep := s\<rparr>)))))"

subsection \<open>Difference operators\<close>

text \<open>
  \<open>gradUFwd\<close> and \<open>gradVFwd\<close> take \<open>uint\<close> coordinates: \<open>x + 1\<close> wraps at 32 bits,
  the comparison with \<open>_w - 1\<close> is done in \<open>size_t\<close> (where \<open>_w - 1\<close> wraps for
  \<open>_w = 0\<close>), and the accessor receives the coordinate converted to \<open>int\<close>.
\<close>

definition gradUFwd :: "fusionData \<Rightarrow> uint32 \<Rightarrow> uint32 \<Rightarrow> uint32 \<Rightarrow> float3" where
  "gradUFwd g x y z =
     (let u = u_at g (sint x) (sint y) (sint z) in
      make_float3
        (if ucast x < dim_w g - 1 then u_at g (sint (x + 1)) (sint y) (sint z) - u else 0)
        (if ucast y < dim_h g - 1 then u_at g (sint x) (sint (y + 1)) (sint z) - u else 0)
        (if ucast z < dim_d g - 1 then u_at g (sint x) (sint y) (sint (z + 1)) - u else 0))"

definition gradVFwd :: "fusionData \<Rightarrow> uint32 \<Rightarrow> uint32 \<Rightarrow> uint32 \<Rightarrow> float3" where
  "gradVFwd g x y z =
     (let v = v_at g (sint x) (sint y) (sint z) in
      make_float3
        (if ucast x < dim_w g - 1 then v_at g (sint (x + 1)) (sint y) (sint z) - v else 0)
        (if ucast y < dim_h g - 1 then v_at g (sint x) (sint (y + 1)) (sint z) - v else 0)
        (if ucast z < dim_d g - 1 then v_at g (sint x) (sint y) (sint (z + 1)) - v else 0))"

definition divPBwd :: "fusionData \<Rightarrow> int \<Rightarrow> int \<Rightarrow> int \<Rightarrow> real" where
  "divPBwd g x y z =
     (let p = p_at g x y z;
          r0 = fx p + fy p + fz p;
          r1 = (if x > 0 then r0 - fx (p_at g (x - 1) y z) else r0);
          r2 = (if y > 0 then r1 - fy (p_at g x (y - 1) z) else r1);
          r3 = (if z > 0 then r2 - fz (p_at g x y (z - 1)) else r2)
      in r3)"

subsection \<open>The proximal operator of the histogram term\<close>













subsection \<open>Projection of the dual variable\<close>

text \<open>
  \<open>projectUnitBall\<close> squares its input, so its \<open>float\<close> arithmetic can overflow:
  a square or a sum beyond \<open>FLT_MAX\<close>, the largest \<open>float\<close>, is plus infinity, the
  root and the maximum of plus infinity are plus infinity, and a number divided by
  plus infinity is zero. Here a \<open>float\<close> result is therefore a real number or plus
  infinity (the squares, their sums, the root and the maximum are never negative,
  and never NaN for components that are numbers); below \<open>FLT_MAX\<close> the arithmetic
  is that of the real numbers, without rounding. The divisor \<open>fmaxf(1.f, \<dots>)\<close> is
  at least 1, so the division always has a value.
\<close>

definition FLT_MAX :: real where
  "FLT_MAX = (2 - 1 / 2 ^ 23) * 2 ^ 127"

datatype xfloat = Fin real | PInf

definition to_float :: "real \<Rightarrow> xfloat" where
  "to_float r = (if FLT_MAX < r then PInf else Fin r)"

definition fsquare :: "real \<Rightarrow> xfloat" where
  "fsquare a = to_float (a * a)"

definition fadd :: "xfloat \<Rightarrow> xfloat \<Rightarrow> xfloat" where
  "fadd a b = (case a of PInf \<Rightarrow> PInf | Fin r \<Rightarrow> (case b of PInf \<Rightarrow> PInf | Fin s \<Rightarrow> to_float (r + s)))"

definition fsqrt :: "xfloat \<Rightarrow> xfloat" where
  "fsqrt a = (case a of PInf \<Rightarrow> PInf | Fin r \<Rightarrow> Fin (sqrt r))"

definition fmaxf :: "real \<Rightarrow> xfloat \<Rightarrow> xfloat" where
  "fmaxf a b = (case b of PInf \<Rightarrow> PInf | Fin r \<Rightarrow> Fin (max a r))"

definition div_float3_xfloat :: "float3 \<Rightarrow> xfloat \<Rightarrow> float3" where
  "div_float3_xfloat a s = (case s of PInf \<Rightarrow> make_float3 0 0 0 | Fin r \<Rightarrow> div_float3 a r)"

definition projectUnitBall :: "float3 \<Rightarrow> float3" where
  "projectUnitBall x =
     div_float3_xfloat x
       (fmaxf 1 (fsqrt (fadd (fadd (fsquare (fx x)) (fsquare (fy x))) (fsquare (fz x)))))"

subsection \<open>Histogram update\<close>

definition h_update ::
  "fusionData \<Rightarrow> int \<Rightarrow> int \<Rightarrow> int \<Rightarrow> histogram \<Rightarrow> fusionData" where
  "h_update g x y z hs =
     g\<lparr>voxel := (voxel g)(idx g x y z := (voxel g (idx g x y z))\<lparr>vox_h := hs\<rparr>)\<rparr>"

definition updateHist ::
  "uchar \<Rightarrow> fusionData \<Rightarrow> int \<Rightarrow> int \<Rightarrow> int \<Rightarrow> real \<Rightarrow> real \<Rightarrow> real
     \<Rightarrow> fault + fusionData" where
  "updateHist bins g x y z voxdepth depth threshold0 =
     (let sd = voxdepth - depth;
          threshold = (if bins = 2 then 0 else threshold0);
          hs = h_at g x y z
      in
      if sd \<ge> threshold then
        (case hist_incr hs (hist_last hs) of
           Inl e \<Rightarrow> Inl e
         | Inr hs' \<Rightarrow> Inr (h_update g x y z hs'))
      else if sd \<le> - threshold then
        (case hist_incr hs (hist_first hs) of
           Inl e \<Rightarrow> Inl e
         | Inr hs' \<Rightarrow> Inr (h_update g x y z hs'))
      else
        (case fdiv (sd + threshold) (2 * threshold) of
           Inl e \<Rightarrow> Inl e
         | Inr q \<Rightarrow>
            (case hist_incr hs (hist_at hs (roundf (q * real_of_int (uint bins - 3)))) of
               Inl e \<Rightarrow> Inl e
             | Inr hs' \<Rightarrow> Inr (h_update g x y z hs'))))"

subsection \<open>Transfers\<close>

text \<open>
  The three copy primitives of \<open>memory.h\<close> are parameters: each takes the
  destination and its pitch, the source and its pitch, and the three dimensions,
  and returns a status code.
\<close>

type_synonym copy_fn =
  "size_t \<Rightarrow> size_t \<Rightarrow> size_t \<Rightarrow> size_t \<Rightarrow> size_t \<Rightarrow> size_t \<Rightarrow> size_t \<Rightarrow> cudaError_t"

record backend =
  Host2DeviceCopy :: copy_fn
  Device2HostCopy :: copy_fn
  Host2HostCopy :: copy_fn

definition copyFrom :: "bool \<Rightarrow> backend \<Rightarrow> fusionData \<Rightarrow> size_t \<Rightarrow> size_t \<Rightarrow> cudaError_t" where
  "copyFrom onDevice be g data npitch =
     (if onDevice
      then Host2DeviceCopy be (voxel_base g) (pitch g) data npitch (dim_w g) (dim_h g) (dim_d g)
      else Host2HostCopy be (voxel_base g) (pitch g) data npitch (dim_w g) (dim_h g) (dim_d g))"

definition copyTo :: "bool \<Rightarrow> backend \<Rightarrow> fusionData \<Rightarrow> size_t \<Rightarrow> size_t \<Rightarrow> cudaError_t" where
  "copyTo onDevice be g data npitch =
     (if onDevice
      then Device2HostCopy be data npitch (voxel_base g) (pitch g) (dim_w g) (dim_h g) (dim_d g)
      else Host2HostCopy be data npitch (voxel_base g) (pitch g) (dim_w g) (dim_h g) (dim_d g))"

section \<open>Reference formulas and test stores\<close>

text \<open>
  The center of an interior bin as section 3 of the spec writes it,
  \<open>2 (i - 1) / (_histBins - 3) - 1\<close>, and the whole table of centers with the
  two reserved bins at \<open>- 1\<close> and \<open>+ 1\<close>.
\<close>

definition center_formula :: "uchar \<Rightarrow> nat \<Rightarrow> real" where
  "center_formula bins k = 2 * (real k - 1) / (real (unat bins) - 3) - 1"

definition expected_center :: "uchar \<Rightarrow> nat \<Rightarrow> real" where
  "expected_center bins k =
     (if k = 0 then - 1 else if k = unat bins - 1 then 1 else center_formula bins k)"

text \<open>A store of one voxel, used to run the operations on concrete inputs.\<close>

definition blank_voxel :: "histogram \<Rightarrow> fusionvoxel" where
  "blank_voxel hs = \<lparr>vox_u = 0, vox_v = 0, vox_p = make_float3 0 0 0, vox_h = hs\<rparr>"

definition one_voxel_store :: "fusionvoxel \<Rightarrow> real list \<Rightarrow> fusionData" where
  "one_voxel_store a cs =
     \<lparr>voxel = (\<lambda>_. a), voxel_base = 0, bincenters = cs, binstep = 0,
      dim_w = 1, dim_h = 1, dim_d = 1, pitch = 0, spitch = 0,
      vol = (make_float3 0 0 0, make_float3 0 0 0)\<rparr>"

text \<open>A store of two voxels along the x axis.\<close>

definition two_voxel_store :: "fusionvoxel \<Rightarrow> fusionvoxel \<Rightarrow> real list \<Rightarrow> fusionData" where
  "two_voxel_store a b cs =
     \<lparr>voxel = (\<lambda>_. a)(1 := b), voxel_base = 0, bincenters = cs, binstep = 0,
      dim_w = 2, dim_h = 1, dim_d = 1, pitch = 0, spitch = 0,
      vol = (make_float3 0 0 0, make_float3 0 0 0)\<rparr>"




text \<open>
  The Euclidean norm \<open>\<parallel>p\<parallel>\<close> and the multiple of a vector, for the statement about
  \<open>projectUnitBall\<close>.
\<close>

definition norm3 :: "float3 \<Rightarrow> real" where
  "norm3 a = sqrt ((fx a)\<^sup>2 + (fy a)\<^sup>2 + (fz a)\<^sup>2)"

definition scale3 :: "real \<Rightarrow> float3 \<Rightarrow> float3" where
  "scale3 c a = make_float3 (c * fx a) (c * fy a) (c * fz a)"

text \<open>
  The store of the spec's scenario for the histogram update: ten bins, all empty.
\<close>

definition ten_bin_store :: fusionData where
  "ten_bin_store = one_voxel_store (blank_voxel [0, 0, 0, 0, 0, 0, 0, 0, 0, 0]) []"










section \<open>Bin parameters: \<open>binParams\<close>, \<open>binCenter\<close>, \<open>binStep\<close>\<close>

lemma uchar_succ: "uint (i :: uchar) < uint (b :: uchar) - 1 \<Longrightarrow> uint (i + 1) = uint i + 1"
  by uint_arith

lemma binParams_loop_fills:
  assumes "uint bins \<noteq> 3" and "length c = unat bins"
  shows "\<exists>c'. binParams_loop bins i c = Inr c' \<and> length c' = length c \<and>
           (\<forall>k < length c. c' ! k =
              (if uint i \<le> int k \<and> int k < uint bins - 1 then center_formula bins k else c ! k))"
  using assms
proof (induction bins i c rule: binParams_loop.induct)
  case (1 bins i c)
  show ?case
  proof (cases "uint i < uint bins - 1")
    case False
    then show ?thesis
      by (subst binParams_loop.simps) auto
  next
    case True
    define q where "q = 2 * real_of_int (uint i - 1) / real_of_int (uint bins - 3)"
    define c1 where "c1 = c[unat i := q - 1]"
    have nz: "real_of_int (uint bins - 3) \<noteq> 0"
      unfolding of_int_eq_0_iff using "1.prems"(1) by arith
    have d: "fdiv (2 * real_of_int (uint i - 1)) (real_of_int (uint bins - 3)) = Inr q"
      by (simp only: fdiv_def nz if_False q_def)
    have inr: "uint i < int (length c)"
      using True "1.prems" by simp
    have w: "arr_write c (uint i) (q - 1) = Inr c1"
      using inr by (simp add: arr_write_def c1_def)
    have len: "length c1 = unat bins"
      using "1.prems" by (simp add: c1_def)
    from "1.IH"[OF True d w "1.prems"(1) len]
    obtain c' where c': "binParams_loop bins (i + 1) c1 = Inr c'" "length c' = length c1"
      and nth: "\<forall>k<length c1. c' ! k =
              (if uint (i + 1) \<le> int k \<and> int k < uint bins - 1 then center_formula bins k else c1 ! k)"
      by blast
    have res: "binParams_loop bins i c = Inr c'"
      by (subst binParams_loop.simps) (simp only: True if_True d w c' sum.case)
    have qk: "q - 1 = center_formula bins (unat i)"
      by (simp add: q_def center_formula_def)
    have "\<forall>k<length c. c' ! k =
              (if uint i \<le> int k \<and> int k < uint bins - 1 then center_formula bins k else c ! k)"
    proof (intro allI impI)
      fix k assume k: "k < length c"
      then have k1: "k < length c1" by (simp add: c1_def)
      show "c' ! k = (if uint i \<le> int k \<and> int k < uint bins - 1 then center_formula bins k else c ! k)"
      proof (cases "int k = uint i")
        case True
        then have "nat (int k) = nat (uint i)" by (simp only:)
        then have kk: "k = unat i" by simp
        have "c' ! k = c1 ! k" using nth k1 True uchar_succ[OF \<open>uint i < uint bins - 1\<close>] by simp
        also have "\<dots> = q - 1" using k kk by (simp add: c1_def)
        finally show ?thesis using True \<open>uint i < uint bins - 1\<close> qk kk by simp
      next
        case False
        then have "k \<noteq> unat i" by (metis of_nat_unat)
        then have "c1 ! k = c ! k" by (simp add: c1_def)
        then show ?thesis
          using nth k1 False uchar_succ[OF \<open>uint i < uint bins - 1\<close>] by auto
      qed
    qed
    with res c' show ?thesis by (simp add: c1_def)
  qed
qed

lemma binParams_result:
  assumes b4: "4 \<le> bins" and len: "length (bincenters g) = unat bins"
  shows "\<exists>c. binParams bins g = Inr (g\<lparr>bincenters := c, binstep := 2 / (real (unat bins) - 3)\<rparr>)
           \<and> length c = unat bins
           \<and> (\<forall>k < unat bins. c ! k =
                 (if k = 0 then - 1 else if k = unat bins - 1 then 1 else center_formula bins k))"
proof -
  have n4: "4 \<le> unat bins"
    using b4 by (simp add: word_le_nat_alt)
  then have u4: "4 \<le> uint bins"
    by (metis of_nat_unat of_nat_le_iff of_nat_numeral)
  define c0 where "c0 = (bincenters g)[0 := - 1]"
  define c1 where "c1 = c0[unat bins - 1 := 1]"
  have w0: "arr_write (bincenters g) 0 (- 1) = Inr c0"
    using n4 u4 len by (simp add: arr_write_def c0_def)
  have "nat (uint bins - 1) = unat bins - 1"
    by (simp add: nat_diff_distrib')
  then have w1: "arr_write c0 (uint bins - 1) 1 = Inr c1"
    using n4 u4 len by (simp add: arr_write_def c0_def c1_def)
  have len1: "length c1 = unat bins"
    using len by (simp add: c0_def c1_def)
  have ne3: "uint bins \<noteq> 3" using u4 by arith
  from binParams_loop_fills[OF ne3 len1, of 1]
  obtain c2 where c2: "binParams_loop bins 1 c1 = Inr c2" "length c2 = length c1"
    and nth: "\<forall>k<length c1. c2 ! k =
        (if uint (1 :: uchar) \<le> int k \<and> int k < uint bins - 1 then center_formula bins k else c1 ! k)"
    by blast
  have nz: "real_of_int (uint bins - 3) \<noteq> 0"
    unfolding of_int_eq_0_iff using ne3 by arith
  have "real_of_int (uint bins - 3) = real (unat bins) - 3"
    by simp
  then have d: "fdiv 2 (real_of_int (uint bins - 3)) = Inr (2 / (real (unat bins) - 3))"
    using nz by (simp only: fdiv_def if_False)
  have res: "binParams bins g = Inr (g\<lparr>bincenters := c2, binstep := 2 / (real (unat bins) - 3)\<rparr>)"
    by (simp only: binParams_def w0 w1 c2 d sum.case)
  have final: "\<forall>k < unat bins. c2 ! k =
          (if k = 0 then - 1 else if k = unat bins - 1 then 1 else center_formula bins k)"
  proof (intro allI impI)
    fix k assume k: "k < unat bins"
    have ik: "int k < uint bins - 1 \<longleftrightarrow> k < unat bins - 1"
      unfolding uint_nat [of bins] using n4 by arith
    show "c2 ! k = (if k = 0 then - 1 else if k = unat bins - 1 then 1 else center_formula bins k)"
    proof (cases "k = 0")
      case True
      then show ?thesis
        using nth k len1 n4 len by (simp add: c1_def c0_def)
    next
      case False
      show ?thesis
      proof (cases "k = unat bins - 1")
        case True
        then show ?thesis
          using nth k len1 n4 len ik False by (simp add: c1_def c0_def)
      next
        case nl: False
        then have "k < unat bins - 1" using k by arith
        then show ?thesis
          using nth k len1 ik False nl by simp
      qed
    qed
  qed
  have l2: "length c2 = unat bins"
    using c2 len1 by simp
  show ?thesis
    by (rule exI[of _ c2]) (intro conjI res l2 final)
qed

lemma center_formula_strict:
  assumes "4 \<le> unat bins" and "i < j"
  shows "center_formula bins i < center_formula bins j"
proof -
  have d: "0 < real (unat bins) - 3" using assms(1) by (simp del: of_nat_unat)
  have "2 * (real i - 1) < 2 * (real j - 1)" using assms(2) by simp
  then have "2 * (real i - 1) / (real (unat bins) - 3) < 2 * (real j - 1) / (real (unat bins) - 3)"
    using d by (rule divide_strict_right_mono)
  then show ?thesis by (simp add: center_formula_def)
qed

lemma center_formula_first: "4 \<le> unat bins \<Longrightarrow> center_formula bins 1 = - 1"
  by (simp add: center_formula_def)

lemma two_mul_div_self: "(a :: real) \<noteq> 0 \<Longrightarrow> 2 * a / a = 2"
  by simp

lemma center_formula_last:
  assumes "4 \<le> unat bins"
  shows "center_formula bins (unat bins - 2) = 1"
proof -
  define n where "n = unat bins"
  have n: "4 \<le> n" using assms by (simp add: n_def)
  have cf: "center_formula bins (n - 2) = 2 * (real (n - 2) - 1) / (real n - 3) - 1"
    by (simp only: center_formula_def n_def)
  have e: "real (n - 2) - 1 = real n - 3"
    using n by simp
  have nz: "real n - 3 \<noteq> 0" using n by simp
  have "2 * (real n - 3) / (real n - 3) = 2"
    by (rule two_mul_div_self[OF nz])
  then have "center_formula bins (n - 2) = 1"
    unfolding cf e by simp
  then show ?thesis by (simp only: n_def)
qed

lemma center_formula_mono:
  assumes "4 \<le> unat bins" and "i \<le> j"
  shows "center_formula bins i \<le> center_formula bins j"
  using center_formula_strict[OF assms(1), of i j] assms(2)
  by (cases "i = j") auto

lemma expected_center_mono:
  assumes n: "4 \<le> unat bins" and ij: "i \<le> j" and j: "j < unat bins"
  shows "expected_center bins i \<le> expected_center bins j"
proof -
  have lo: "- 1 \<le> center_formula bins k" if "1 \<le> k" for k
    using center_formula_mono[OF n that] center_formula_first[OF n] by simp
  have hi: "center_formula bins k \<le> 1" if "k \<le> unat bins - 2" for k
    using center_formula_mono[OF n that] center_formula_last[OF n] by simp
  show ?thesis
  proof (cases "i = 0")
    case True
    then show ?thesis
      using lo[of j] by (auto simp: expected_center_def)
  next
    case i0: False
    show ?thesis
    proof (cases "j = unat bins - 1")
      case True
      then show ?thesis
        using hi[of i] ij i0 by (auto simp: expected_center_def)
    next
      case False
      then have "i \<noteq> unat bins - 1" using ij j by arith
      then show ?thesis
        using i0 False ij center_formula_mono[OF n ij] by (auto simp: expected_center_def)
    qed
  qed
qed

lemma expected_center_strict:
  assumes n: "4 \<le> unat bins" and i: "1 \<le> i" and ij: "i < j" and j: "j < unat bins - 1"
  shows "expected_center bins i < expected_center bins j"
  using center_formula_strict[OF n ij] assms by (auto simp: expected_center_def)

lemma binCenter_read:
  assumes "length (bincenters g) = unat bins" and "i < bins"
  shows "binCenter bins g i = Inr (bincenters g ! unat i)"
proof -
  have "uint i < uint bins" using assms(2) by (simp add: word_less_def)
  then have "uint i < int (length (bincenters g))"
    using assms(1) by simp
  then show ?thesis
    using assms(2) by (simp add: binCenter_def arr_read_def)
qed

text \<open>
  Claim C5, amended. For every bin count \<open>_histBins \<ge> 4\<close>, construction succeeds and
  afterwards \<open>binCenter(0) = - 1\<close>, \<open>binCenter(_histBins - 1) = + 1\<close>, the bin
  centers are non-decreasing in the bin index and strictly increasing over the
  interior indices \<open>1 \<dots> _histBins - 2\<close> (with \<open>binCenter(1) = binCenter(0)\<close> and
  \<open>binCenter(_histBins - 2) = binCenter(_histBins - 1)\<close>), and
  \<open>binStep() = 2 / (_histBins - 3)\<close>.
  The array \<open>_bincenters\<close> has \<open>_histBins\<close> entries, whatever they hold before.
\<close>

theorem binParams_centers:
  assumes b4: "4 \<le> bins" and len: "length (bincenters g0) = unat bins"
  shows "\<exists>g. binParams bins g0 = Inr g
     \<and> binCenter bins g 0 = Inr (- 1)
     \<and> binCenter bins g (bins - 1) = Inr 1
     \<and> binCenter bins g 1 = Inr (- 1)
     \<and> binCenter bins g (bins - 2) = Inr 1
     \<and> (\<forall>i j. i \<le> j \<and> j < bins \<longrightarrow>
           (\<exists>a b. binCenter bins g i = Inr a \<and> binCenter bins g j = Inr b \<and> a \<le> b))
     \<and> (\<forall>i j. 1 \<le> i \<and> i < j \<and> j < bins - 1 \<longrightarrow>
           (\<exists>a b. binCenter bins g i = Inr a \<and> binCenter bins g j = Inr b \<and> a < b))
     \<and> binStep g = 2 / (real (unat bins) - 3)"
proof -
  have n4: "4 \<le> unat bins"
    using b4 by (simp add: word_le_nat_alt)
  from binParams_result[OF b4 len] obtain c where
    res: "binParams bins g0 = Inr (g0\<lparr>bincenters := c, binstep := 2 / (real (unat bins) - 3)\<rparr>)"
    and lc: "length c = unat bins"
    and nth: "\<forall>k < unat bins. c ! k = expected_center bins k"
    unfolding expected_center_def by blast
  define g where "g = g0\<lparr>bincenters := c, binstep := 2 / (real (unat bins) - 3)\<rparr>"
  have lg: "length (bincenters g) = unat bins" by (simp add: g_def lc)
  have rd: "binCenter bins g i = Inr (expected_center bins (unat i))" if "i < bins" for i
  proof -
    have "unat i < unat bins" using that by (simp add: word_less_nat_alt)
    then show ?thesis
      using binCenter_read[OF lg that] nth by (simp add: g_def)
  qed
  have b0: "0 < bins" using n4 by (simp add: word_less_nat_alt)
  have ub1: "unat (bins - 1) = unat bins - 1"
    using n4 by (simp add: unat_minus_one unat_gt_0 flip: unat_gt_0)
  have bl: "bins - 1 < bins" using n4 ub1 by (simp add: word_less_nat_alt)
  have c0: "binCenter bins g 0 = Inr (- 1)"
    using rd[OF b0] by (simp add: expected_center_def)
  have c1: "binCenter bins g (bins - 1) = Inr 1"
    using rd[OF bl] n4 ub1 by (simp add: expected_center_def)
  have b1: "1 < bins" using n4 by (simp add: word_less_nat_alt)
  have e1: "binCenter bins g 1 = Inr (- 1)"
    using rd[OF b1] n4 center_formula_first[OF n4] by (simp add: expected_center_def)
  have "2 \<le> bins" using n4 by (simp add: word_le_nat_alt)
  then have "unat (bins - 2) = unat bins - unat (2 :: uchar)"
    by (rule unat_sub)
  then have ub2: "unat (bins - 2) = unat bins - 2" by simp
  have b2: "bins - 2 < bins" using n4 ub2 by (simp add: word_less_nat_alt)
  have e2: "binCenter bins g (bins - 2) = Inr 1"
    using rd[OF b2] n4 ub2 center_formula_last[OF n4] by (simp add: expected_center_def)
  have mono: "\<forall>i j. i \<le> j \<and> j < bins \<longrightarrow>
           (\<exists>a b. binCenter bins g i = Inr a \<and> binCenter bins g j = Inr b \<and> a \<le> b)"
  proof (intro allI impI)
    fix i j assume a: "i \<le> j \<and> j < bins"
    then have ib: "i < bins" by (meson le_less_trans)
    have "expected_center bins (unat i) \<le> expected_center bins (unat j)"
      using a by (intro expected_center_mono[OF n4]) (simp_all add: word_le_nat_alt word_less_nat_alt)
    then show "\<exists>a b. binCenter bins g i = Inr a \<and> binCenter bins g j = Inr b \<and> a \<le> b"
      using rd[OF ib] rd[of j] a by simp
  qed
  have strict: "\<forall>i j. 1 \<le> i \<and> i < j \<and> j < bins - 1 \<longrightarrow>
           (\<exists>a b. binCenter bins g i = Inr a \<and> binCenter bins g j = Inr b \<and> a < b)"
  proof (intro allI impI)
    fix i j assume a: "1 \<le> i \<and> i < j \<and> j < bins - 1"
    then have jb: "j < bins" using bl by (meson less_trans)
    then have ib: "i < bins" using a by (meson less_trans)
    have "expected_center bins (unat i) < expected_center bins (unat j)"
      using a ub1 by (intro expected_center_strict[OF n4]) (simp_all add: word_le_nat_alt word_less_nat_alt)
    then show "\<exists>a b. binCenter bins g i = Inr a \<and> binCenter bins g j = Inr b \<and> a < b"
      using rd[OF ib] rd[OF jb] by simp
  qed
  have st: "binStep g = 2 / (real (unat bins) - 3)"
    by (simp add: binStep_def g_def)
  show ?thesis
    by (rule exI[of _ g])
      (use res c0 c1 e1 e2 mono strict st in \<open>simp only: g_def [symmetric] simp_thms\<close>)
qed

theorem binParams_centers_witness:
  "(4 :: uchar) \<le> 4
   \<and> length (bincenters (one_voxel_store (blank_voxel []) [0, 0, 0, 0])) = unat (4 :: uchar)
   \<and> (\<exists>g. binParams 4 (one_voxel_store (blank_voxel []) [0, 0, 0, 0]) = Inr g
          \<and> binCenter 4 g 0 = Inr (- 1) \<and> binCenter 4 g 3 = Inr 1
          \<and> binCenter 4 g 1 = Inr (- 1) \<and> binCenter 4 g 2 = Inr 1 \<and> binStep g = 2)"
  using binParams_centers[of 4 "one_voxel_store (blank_voxel []) [0, 0, 0, 0]"]
  by (auto simp: one_voxel_store_def)

text \<open>
  Claim C5 as stated asks for strictly increasing centers over all bins. With four
  bins the table is \<open>- 1, - 1, 1, 1\<close>: the first interior bin has the center of the
  occluded bin (and the last interior bin that of the empty bin).
\<close>

theorem binCenter_strict_counterexample:
  "binParams 4 (one_voxel_store (blank_voxel []) [0, 0, 0, 0])
     = Inr ((one_voxel_store (blank_voxel []) [0, 0, 0, 0])
              \<lparr>bincenters := [- 1, - 1, 1, 1], binstep := 2\<rparr>)
   \<and> binCenter 4 ((one_voxel_store (blank_voxel []) [0, 0, 0, 0])
              \<lparr>bincenters := [- 1, - 1, 1, 1], binstep := 2\<rparr>) 0 = Inr (- 1)
   \<and> binCenter 4 ((one_voxel_store (blank_voxel []) [0, 0, 0, 0])
              \<lparr>bincenters := [- 1, - 1, 1, 1], binstep := 2\<rparr>) 1 = Inr (- 1)"
  by (simp add: binParams_def fdiv_def arr_write_def arr_read_def binCenter_def
      one_voxel_store_def)

text \<open>
  Claim C6 says that no bin count below four makes the store divide by zero. With
  three bins (the instance \<open>fusionData3\<close>) the loop of \<open>binParams\<close> runs once, for
  \<open>i = 1\<close>, and divides by \<open>float(_histBins - 3) = 0\<close>; so does the bin step.
\<close>

theorem binParams_three_bins_DivByZero:
  "binParams 3 (one_voxel_store (blank_voxel [0, 0, 0]) [0, 0, 0]) = Inl DivByZero"
  by (simp add: binParams_def fdiv_def arr_write_def one_voxel_store_def)

text \<open>
  Claim C10. \<open>binCenter\<close> never reads outside the array of centers: for a bin
  index \<open>binindex \<ge> _histBins\<close> it returns 0, and for \<open>binindex < _histBins\<close> it
  returns the stored center.
\<close>

theorem binCenter_total:
  assumes "length (bincenters g) = unat bins"
  shows "(bins \<le> binindex \<longrightarrow> binCenter bins g binindex = Inr 0)
       \<and> (binindex < bins \<longrightarrow> binCenter bins g binindex = Inr (bincenters g ! unat binindex))"
  using binCenter_read[OF assms] by (auto simp: binCenter_def)

theorem binCenter_total_witness:
  "length (bincenters (one_voxel_store (blank_voxel []) [- 1, - 1, 1, 1])) = unat (4 :: uchar)
   \<and> (4 :: uchar) \<le> 7
   \<and> binCenter 4 (one_voxel_store (blank_voxel []) [- 1, - 1, 1, 1]) 7 = Inr 0
   \<and> (2 :: uchar) < 4
   \<and> binCenter 4 (one_voxel_store (blank_voxel []) [- 1, - 1, 1, 1]) 2 = Inr 1"
  using binCenter_total[of "one_voxel_store (blank_voxel []) [- 1, - 1, 1, 1]" 4 7]
    binCenter_total[of "one_voxel_store (blank_voxel []) [- 1, - 1, 1, 1]" 4 2]
  by (simp add: one_voxel_store_def)

section \<open>Difference operators: \<open>gradUFwd\<close>, \<open>gradVFwd\<close>, \<open>divPBwd\<close>\<close>













lemma divPBwd_closed_form:
  "divPBwd g x y z =
     fx (p_at g x y z) + fy (p_at g x y z) + fz (p_at g x y z)
       - (if 0 < x then fx (p_at g (x - 1) y z) else 0)
       - (if 0 < y then fy (p_at g x (y - 1) z) else 0)
       - (if 0 < z then fz (p_at g x y (z - 1)) else 0)"
  by (simp add: divPBwd_def Let_def)






text \<open>
  Claim C4. At the last index along an axis the component of \<open>gradUFwd\<close> and of
  \<open>gradVFwd\<close> on that axis is zero, whatever the fields hold; at index 0 along an
  axis \<open>divPBwd\<close> subtracts nothing for that axis, as if the missing neighbour's
  component were 0.
\<close>

theorem boundary_terms:
  "(ucast x = dim_w g - 1 \<longrightarrow> fx (gradUFwd g x y z) = 0 \<and> fx (gradVFwd g x y z) = 0)
   \<and> (ucast y = dim_h g - 1 \<longrightarrow> fy (gradUFwd g x y z) = 0 \<and> fy (gradVFwd g x y z) = 0)
   \<and> (ucast z = dim_d g - 1 \<longrightarrow> fz (gradUFwd g x y z) = 0 \<and> fz (gradVFwd g x y z) = 0)
   \<and> (nx = 0 \<longrightarrow> divPBwd g nx ny nz =
         fx (p_at g nx ny nz) + fy (p_at g nx ny nz) + fz (p_at g nx ny nz) - 0
           - (if 0 < ny then fy (p_at g nx (ny - 1) nz) else 0)
           - (if 0 < nz then fz (p_at g nx ny (nz - 1)) else 0))
   \<and> (ny = 0 \<longrightarrow> divPBwd g nx ny nz =
         fx (p_at g nx ny nz) + fy (p_at g nx ny nz) + fz (p_at g nx ny nz)
           - (if 0 < nx then fx (p_at g (nx - 1) ny nz) else 0) - 0
           - (if 0 < nz then fz (p_at g nx ny (nz - 1)) else 0))
   \<and> (nz = 0 \<longrightarrow> divPBwd g nx ny nz =
         fx (p_at g nx ny nz) + fy (p_at g nx ny nz) + fz (p_at g nx ny nz)
           - (if 0 < nx then fx (p_at g (nx - 1) ny nz) else 0)
           - (if 0 < ny then fy (p_at g nx (ny - 1) nz) else 0) - 0)"
  by (simp add: gradUFwd_def gradVFwd_def Let_def divPBwd_closed_form)

theorem boundary_terms_witness:
  "ucast (1 :: uint32) = dim_w (two_voxel_store
       \<lparr>vox_u = 1, vox_v = 3, vox_p = make_float3 2 5 7, vox_h = []\<rparr>
       \<lparr>vox_u = 4, vox_v = 9, vox_p = make_float3 6 8 1, vox_h = []\<rparr> []) - 1
   \<and> gradUFwd (two_voxel_store
       \<lparr>vox_u = 1, vox_v = 3, vox_p = make_float3 2 5 7, vox_h = []\<rparr>
       \<lparr>vox_u = 4, vox_v = 9, vox_p = make_float3 6 8 1, vox_h = []\<rparr> []) 1 0 0
       = make_float3 0 0 0
   \<and> gradVFwd (two_voxel_store
       \<lparr>vox_u = 1, vox_v = 3, vox_p = make_float3 2 5 7, vox_h = []\<rparr>
       \<lparr>vox_u = 4, vox_v = 9, vox_p = make_float3 6 8 1, vox_h = []\<rparr> []) 1 0 0
       = make_float3 0 0 0
   \<and> divPBwd (two_voxel_store
       \<lparr>vox_u = 1, vox_v = 3, vox_p = make_float3 2 5 7, vox_h = []\<rparr>
       \<lparr>vox_u = 4, vox_v = 9, vox_p = make_float3 6 8 1, vox_h = []\<rparr> []) 0 0 0 = 14"
proof -
  let ?g = "two_voxel_store
       \<lparr>vox_u = 1, vox_v = 3, vox_p = make_float3 2 5 7, vox_h = []\<rparr>
       \<lparr>vox_u = 4, vox_v = 9, vox_p = make_float3 6 8 1, vox_h = []\<rparr> []"
  have dims: "dim_w ?g = 2" "dim_h ?g = 1" "dim_d ?g = 1"
    by (simp_all add: two_voxel_store_def)
  have p0: "p_at ?g 0 0 0 = make_float3 2 5 7"
    by (simp add: p_at_def idx_def two_voxel_store_def)
  from boundary_terms[of 1 ?g 0 0 0 0 0] dims p0
  have "fx (gradUFwd ?g 1 0 0) = 0 \<and> fx (gradVFwd ?g 1 0 0) = 0
      \<and> fy (gradUFwd ?g 1 0 0) = 0 \<and> fy (gradVFwd ?g 1 0 0) = 0
      \<and> fz (gradUFwd ?g 1 0 0) = 0 \<and> fz (gradVFwd ?g 1 0 0) = 0
      \<and> divPBwd ?g 0 0 0 = 14"
    by simp
  then show ?thesis
    using dims by (simp add: float3.expand)
qed

section \<open>Projection: \<open>projectUnitBall\<close>\<close>

lemma norm3_nonneg: "0 \<le> norm3 a"
  by (simp add: norm3_def)

lemma projectUnitBall_no_overflow:
  assumes "(fx a)\<^sup>2 + (fy a)\<^sup>2 + (fz a)\<^sup>2 \<le> FLT_MAX"
  shows "projectUnitBall a = div_float3 a (max 1 (norm3 a))"
proof -
  have sq: "0 \<le> fx a * fx a" "0 \<le> fy a * fy a" "0 \<le> fz a * fz a"
    by simp_all
  have xyz': "fx a * fx a + fy a * fy a + fz a * fz a \<le> FLT_MAX"
    using assms by (simp add: power2_eq_square)
  have x: "\<not> FLT_MAX < fx a * fx a"
    and y: "\<not> FLT_MAX < fy a * fy a"
    and z: "\<not> FLT_MAX < fz a * fz a"
    and xy: "\<not> FLT_MAX < fx a * fx a + fy a * fy a"
    and xyz: "\<not> FLT_MAX < fx a * fx a + fy a * fy a + fz a * fz a"
    using sq xyz' by linarith+
  show ?thesis
    by (simp add: projectUnitBall_def fsquare_def fadd_def fsqrt_def fmaxf_def to_float_def
        div_float3_xfloat_def x y z xy xyz norm3_def power2_eq_square)
qed

lemma projectUnitBall_overflow:
  assumes "FLT_MAX < (fx a)\<^sup>2 + (fy a)\<^sup>2 + (fz a)\<^sup>2"
  shows "projectUnitBall a = make_float3 0 0 0"
  using assms
  by (simp add: projectUnitBall_def fsquare_def fadd_def fsqrt_def fmaxf_def to_float_def
      div_float3_xfloat_def power2_eq_square)

lemma norm3_div:
  assumes "0 < s"
  shows "norm3 (div_float3 a s) = norm3 a / s"
proof -
  have "(fx a / s)\<^sup>2 + (fy a / s)\<^sup>2 + (fz a / s)\<^sup>2
      = ((fx a)\<^sup>2 + (fy a)\<^sup>2 + (fz a)\<^sup>2) / s\<^sup>2"
    by (simp add: power_divide add_divide_distrib)
  then have "norm3 (div_float3 a s) = sqrt (((fx a)\<^sup>2 + (fy a)\<^sup>2 + (fz a)\<^sup>2) / s\<^sup>2)"
    by (simp add: norm3_def div_float3_def)
  also have "\<dots> = norm3 a / s"
    using assms by (simp add: real_sqrt_divide norm3_def)
  finally show ?thesis .
qed

text \<open>
  Claim C7, amended. For every input vector \<open>p\<close> whose sum of squared components
  does not exceed \<open>FLT_MAX\<close> (no overflow), \<open>projectUnitBall(p)\<close> is
  \<open>p / max(1, \<parallel>p\<parallel>)\<close>; it returns \<open>p\<close> when \<open>\<parallel>p\<parallel> \<le> 1\<close>, and when \<open>\<parallel>p\<parallel> > 1\<close> it
  returns the vector of norm 1 that is the multiple of \<open>p\<close> by the positive factor
  \<open>1 / \<parallel>p\<parallel>\<close>. Up to \<open>FLT_MAX\<close> the arithmetic is that of the real numbers.
\<close>

theorem projectUnitBall_spec:
  assumes "(fx a)\<^sup>2 + (fy a)\<^sup>2 + (fz a)\<^sup>2 \<le> FLT_MAX"
  shows "projectUnitBall a = div_float3 a (max 1 (norm3 a))
   \<and> (norm3 a \<le> 1 \<longrightarrow> projectUnitBall a = a)
   \<and> (1 < norm3 a \<longrightarrow>
         norm3 (projectUnitBall a) = 1
         \<and> 0 < 1 / norm3 a
         \<and> projectUnitBall a = scale3 (1 / norm3 a) a)"
proof (intro conjI impI)
  note eq = projectUnitBall_no_overflow[OF assms]
  show "projectUnitBall a = div_float3 a (max 1 (norm3 a))"
    by (rule eq)
  {
    assume "norm3 a \<le> 1"
    then have "max 1 (norm3 a) = 1" by simp
    then show "projectUnitBall a = a"
      by (simp add: eq div_float3_def)
  }
  {
    assume big: "1 < norm3 a"
    then have m: "max 1 (norm3 a) = norm3 a" by simp
    have pos: "0 < norm3 a" using big by simp
    show "norm3 (projectUnitBall a) = 1"
      using pos by (simp add: eq m norm3_div)
    show "0 < 1 / norm3 a"
      using pos by simp
    show "projectUnitBall a = scale3 (1 / norm3 a) a"
      by (simp add: eq m div_float3_def scale3_def)
  }
qed

theorem projectUnitBall_spec_witness:
  "(fx (make_float3 0 1 0))\<^sup>2 + (fy (make_float3 0 1 0))\<^sup>2 + (fz (make_float3 0 1 0))\<^sup>2
     \<le> FLT_MAX
   \<and> norm3 (make_float3 0 1 0) \<le> 1
   \<and> projectUnitBall (make_float3 0 1 0) = make_float3 0 1 0
   \<and> (fx (make_float3 3 4 0))\<^sup>2 + (fy (make_float3 3 4 0))\<^sup>2 + (fz (make_float3 3 4 0))\<^sup>2
     \<le> FLT_MAX
   \<and> 1 < norm3 (make_float3 3 4 0)
   \<and> norm3 (projectUnitBall (make_float3 3 4 0)) = 1
   \<and> projectUnitBall (make_float3 3 4 0) = make_float3 (3 / 5) (4 / 5) 0"
proof -
  have "sqrt 25 = 5" by (rule real_sqrt_unique) simp_all
  then have n5: "norm3 (make_float3 3 4 0) = 5"
    by (simp add: norm3_def)
  have n1: "norm3 (make_float3 0 1 0) = 1"
    by (simp add: norm3_def)
  have f1: "(fx (make_float3 0 1 0))\<^sup>2 + (fy (make_float3 0 1 0))\<^sup>2
      + (fz (make_float3 0 1 0))\<^sup>2 \<le> FLT_MAX"
    by (simp add: FLT_MAX_def)
  have f5: "(fx (make_float3 3 4 0))\<^sup>2 + (fy (make_float3 3 4 0))\<^sup>2
      + (fz (make_float3 3 4 0))\<^sup>2 \<le> FLT_MAX"
    by (simp add: FLT_MAX_def)
  have le: "norm3 (make_float3 0 1 0) \<le> 1"
    using n1 by simp
  have gt: "1 < norm3 (make_float3 3 4 0)"
    using n5 by simp
  note small = projectUnitBall_spec[OF f1, THEN conjunct2, THEN conjunct1, rule_format, OF le]
  note big = projectUnitBall_spec[OF f5, THEN conjunct2, THEN conjunct2, rule_format, OF gt]
  have big1: "norm3 (projectUnitBall (make_float3 3 4 0)) = 1"
    by (rule big[THEN conjunct1])
  have "projectUnitBall (make_float3 3 4 0)
      = scale3 (1 / norm3 (make_float3 3 4 0)) (make_float3 3 4 0)"
    by (rule big[THEN conjunct2, THEN conjunct2])
  then have big2: "projectUnitBall (make_float3 3 4 0) = make_float3 (3 / 5) (4 / 5) 0"
    by (simp add: n5 scale3_def)
  show ?thesis
    by (intro conjI f1 le small f5 gt big1 big2)
qed

text \<open>
  Claim C7 as stated, for every input vector, fails where the squares overflow.
  For \<open>p = (2^100, 0, 0)\<close> the square \<open>2^200\<close> is beyond \<open>FLT_MAX\<close>, the divisor is
  plus infinity and the result is the zero vector, while \<open>p / max(1, \<parallel>p\<parallel>)\<close> is
  \<open>(1, 0, 0)\<close>.
\<close>

theorem projectUnitBall_overflow_counterexample:
  "projectUnitBall (make_float3 (2 ^ 100) 0 0) = make_float3 0 0 0
   \<and> div_float3 (make_float3 (2 ^ 100) 0 0) (max 1 (norm3 (make_float3 (2 ^ 100) 0 0)))
       = make_float3 1 0 0"
proof -
  have "FLT_MAX < (fx (make_float3 (2 ^ 100) 0 0))\<^sup>2 + (fy (make_float3 (2 ^ 100) 0 0))\<^sup>2
      + (fz (make_float3 (2 ^ 100) 0 0))\<^sup>2"
    by (simp add: FLT_MAX_def)
  then have zero: "projectUnitBall (make_float3 (2 ^ 100) 0 0) = make_float3 0 0 0"
    by (rule projectUnitBall_overflow)
  have "norm3 (make_float3 (2 ^ 100) 0 0) = 2 ^ 100"
    by (simp add: norm3_def)
  then have "div_float3 (make_float3 (2 ^ 100) 0 0) (max 1 (norm3 (make_float3 (2 ^ 100) 0 0)))
      = make_float3 1 0 0"
    by (simp add: div_float3_def)
  with zero show ?thesis by simp
qed

section \<open>Transfers: \<open>copyFrom\<close>, \<open>copyTo\<close>\<close>

text \<open>
  Claim C9. \<open>copyFrom\<close> and \<open>copyTo\<close> take the device path when the store is on
  the device and the host path otherwise, and return exactly the status code of the
  copy primitive they call.
\<close>

theorem copy_paths:
  "copyFrom True be g data npitch
     = Host2DeviceCopy be (voxel_base g) (pitch g) data npitch (dim_w g) (dim_h g) (dim_d g)
   \<and> copyFrom False be g data npitch
     = Host2HostCopy be (voxel_base g) (pitch g) data npitch (dim_w g) (dim_h g) (dim_d g)
   \<and> copyTo True be g data npitch
     = Device2HostCopy be data npitch (voxel_base g) (pitch g) (dim_w g) (dim_h g) (dim_d g)
   \<and> copyTo False be g data npitch
     = Host2HostCopy be data npitch (voxel_base g) (pitch g) (dim_w g) (dim_h g) (dim_d g)"
  by (simp add: copyFrom_def copyTo_def)

section \<open>Histogram update: \<open>updateHist\<close>\<close>

lemma hist_incr_in_range:
  assumes "0 \<le> pos" and "pos < int (length hs)"
  shows "hist_incr hs pos = Inr (hs[nat pos := hs ! nat pos + 1])"
  using assms by (simp add: hist_incr_def arr_read_def arr_write_def)

lemma hist_incr_out_of_range:
  assumes "pos < 0 \<or> int (length hs) \<le> pos"
  shows "hist_incr hs pos = Inl OutOfRange"
  using assms by (auto simp: hist_incr_def arr_read_def)

lemma hist_incr_cases:
  "hist_incr hs pos = Inl OutOfRange
   \<or> (0 \<le> pos \<and> pos < int (length hs) \<and> hist_incr hs pos = Inr (hs[nat pos := hs ! nat pos + 1]))"
  using hist_incr_in_range[of pos hs] hist_incr_out_of_range[of pos hs] by fastforce

lemma near_surface_divisor:
  assumes "- t < sd" and "sd < (t :: real)"
  shows "fdiv (sd + t) (2 * t) = Inr ((sd + t) / (2 * t))"
proof -
  have "0 < t" using assms by linarith
  then show ?thesis by (simp add: fdiv_def)
qed

lemma h_update_reads:
  "h_at (h_update g x y z hs) x y z = hs
   \<and> (idx g a b c \<noteq> idx g x y z \<longrightarrow> h_at (h_update g x y z hs) a b c = h_at g a b c)
   \<and> u_at (h_update g x y z hs) a b c = u_at g a b c
   \<and> v_at (h_update g x y z hs) a b c = v_at g a b c
   \<and> p_at (h_update g x y z hs) a b c = p_at g a b c
   \<and> bincenters (h_update g x y z hs) = bincenters g
   \<and> binstep (h_update g x y z hs) = binstep g"
  by (simp add: h_update_def h_at_def u_at_def v_at_def p_at_def idx_def)



lemma h_at_ten_bin_store: "h_at ten_bin_store x y z = [0, 0, 0, 0, 0, 0, 0, 0, 0, 0]"
  by (simp add: ten_bin_store_def one_voxel_store_def blank_voxel_def h_at_def)



text \<open>
  Claim C8 says that every call increments exactly one bin. With ten bins and
  threshold \<open>0.2\<close>, the signed distance \<open>- 0.19\<close> is near the surface and the index
  is \<open>round(0.175) = 0\<close>. The indexed accessor counts bins from 1, so it is handed
  no bin: the access falls outside the histogram.
\<close>

theorem updateHist_near_occluded_OutOfRange:
  "updateHist 10 ten_bin_store 0 0 0 (1 / 2) (69 / 100) (1 / 5) = Inl OutOfRange"
proof -
  have "roundf (7 / 40) = 0"
    by (simp add: roundf_def)
  then show ?thesis
    by (simp add: updateHist_def Let_def fdiv_def h_at_ten_bin_store hist_incr_def hist_at_def
        arr_read_def)
qed

text \<open>
  What does hold of the update: it never divides by zero, with two bins it is the
  binary split between the occluded and the empty bin, and a call that stays inside
  the histogram increments one bin of the addressed voxel and changes nothing else.
\<close>

lemma updateHist_no_DivByZero:
  "updateHist bins g x y z voxdepth depth threshold \<noteq> Inl DivByZero"
proof -
  define sd where "sd = voxdepth - depth"
  define t where "t = (if bins = 2 then 0 else threshold)"
  have inc: "(case hist_incr hs pos of Inl e \<Rightarrow> Inl e | Inr hs' \<Rightarrow> Inr (h_update g x y z hs'))
      \<noteq> Inl DivByZero" for hs pos
    using hist_incr_cases[of hs pos] by auto
  consider "t \<le> sd" | "sd < t \<and> sd \<le> - t" | "- t < sd \<and> sd < t"
    by linarith
  then show ?thesis
  proof cases
    case 1
    then show ?thesis
      using inc by (simp add: updateHist_def Let_def sd_def t_def)
  next
    case 2
    then show ?thesis
      using inc by (simp add: updateHist_def Let_def sd_def t_def)
  next
    case 3
    then have d: "fdiv (sd + t) (2 * t) = Inr ((sd + t) / (2 * t))"
      by (intro near_surface_divisor) simp_all
    have n: "\<not> t \<le> sd" "\<not> sd \<le> - t" using 3 by simp_all
    show ?thesis
      unfolding updateHist_def Let_def sd_def [symmetric] t_def [symmetric]
      by (simp only: n if_False d sum.case inc not_False_eq_True)
  qed
qed

lemma updateHist_two_bins:
  assumes "h_at g x y z = [a, b]"
  shows "updateHist 2 g x y z voxdepth depth threshold
     = Inr (g\<lparr>voxel := (voxel g)(idx g x y z := (voxel g (idx g x y z))
         \<lparr>vox_h := (if depth \<le> voxdepth then [a, b + 1] else [a + 1, b])\<rparr>)\<rparr>)"
  using assms
  by (simp add: updateHist_def Let_def hist_incr_def hist_last_def hist_first_def arr_read_def
      arr_write_def h_update_def)

lemma binParams_two_bins:
  assumes "length (bincenters g) = 2"
  shows "binParams 2 g = Inr (g\<lparr>bincenters := [- 1, 1], binstep := - 2\<rparr>)"
proof -
  obtain c0 c1 where c: "bincenters g = [c0, c1]"
    using assms by (metis (no_types) length_0_conv length_Suc_conv numeral_2_eq_2)
  show ?thesis
    by (simp add: binParams_def c arr_write_def fdiv_def)
qed

lemma updateHist_increments_one_bin:
  assumes "updateHist bins g x y z voxdepth depth threshold = Inr g'"
  shows "\<exists>pos < length (h_at g x y z).
           g' = g\<lparr>voxel := (voxel g)(idx g x y z := (voxel g (idx g x y z))
                  \<lparr>vox_h := (h_at g x y z)[pos := h_at g x y z ! pos + 1]\<rparr>)\<rparr>"
proof -
  define hs where "hs = h_at g x y z"
  have inc: "\<exists>pos < length hs. g' = h_update g x y z (hs[pos := hs ! pos + 1])"
    if "(case hist_incr hs p of Inl e \<Rightarrow> Inl e | Inr hs' \<Rightarrow> Inr (h_update g x y z hs')) = Inr g'"
    for p
    using hist_incr_cases[of hs p] that
    by (auto intro!: exI[of _ "nat p"])
  have "\<exists>pos < length hs. g' = h_update g x y z (hs[pos := hs ! pos + 1])"
    using assms inc unfolding hs_def [symmetric]
    by (auto simp: updateHist_def Let_def hs_def [symmetric] split: if_splits sum.splits)
  then show ?thesis
    by (simp add: h_update_def hs_def)
qed

text \<open>
  With three bins the factor \<open>_histBins - 3\<close> is 0, so every near-surface call
  computes the index 0 and falls outside the histogram.
\<close>

lemma updateHist_three_bins_near_surface:
  assumes "- threshold < voxdepth - depth" and "voxdepth - depth < threshold"
  shows "updateHist 3 g x y z voxdepth depth threshold = Inl OutOfRange"
proof -
  have d: "fdiv (voxdepth - depth + threshold) (2 * threshold)
      = Inr ((voxdepth - depth + threshold) / (2 * threshold))"
    using assms by (rule near_surface_divisor)
  have n: "\<not> threshold \<le> voxdepth - depth" "\<not> voxdepth - depth \<le> - threshold"
    using assms by simp_all
  have k: "hist_incr (h_at g x y z) (hist_at (h_at g x y z) (roundf 0)) = Inl OutOfRange"
    by (rule hist_incr_out_of_range) (simp add: hist_at_def roundf_def)
  have three: "real_of_int (uint (3 :: uchar) - 3) = 0" "(3 :: uchar) \<noteq> 2"
    by simp_all
  show ?thesis
    unfolding updateHist_def Let_def
    by (simp only: three if_False n d sum.case mult_zero_right k)
qed

section \<open>The proximal operator: \<open>Wi\<close>, \<open>pi\<close>, \<open>proxHist\<close>\<close>





























end
